theory Spec2Isabelle
  imports Complex_Main
begin

section \<open>Errors\<close>

text \<open>
  The exceptions that can leave the functions modelled here.
  \<open>MailCertificadoException code description\<close> is the library's own exception
  (api.py, lines 13-21), the uniform error the specification calls ValidationError when it
  is raised locally. \<open>TypeError\<close> is Python's error for subscripting \<open>None\<close> or for
  an operation on a value of the wrong type, \<open>KeyError\<close> its error for a missing dict key.
  \<open>Base64Error\<close> stands for an exception raised by \<open>base64.b64decode\<close>,
  \<open>PdfError\<close> for one raised by \<open>PdfFileMerger.append\<close> or \<open>PdfFileMerger.write\<close>.
\<close>

datatype error =
    MailCertificadoException int string
  | TypeError
  | KeyError
  | Base64Error
  | PdfError

text \<open>
  \<open>MailCertificado.exception\<close> (lines 71-80) applied to a message string: a string has no
  attribute \<open>fault\<close>, so only the first and the last branch can be taken.
\<close>

definition exception :: "string \<Rightarrow> error" where
  "exception msg =
     (if msg = ''unknown'' then MailCertificadoException 0 ''Unknown error''
      else MailCertificadoException 0 msg)"

fun is_ValidationError :: "error \<Rightarrow> bool" where
  "is_ValidationError (MailCertificadoException code description) = True"
| "is_ValidationError TypeError = False"
| "is_ValidationError KeyError = False"
| "is_ValidationError Base64Error = False"
| "is_ValidationError PdfError = False"

section \<open>valid_mobile\<close>

text \<open>
  The compiled pattern \<open>^[67][0-9]{8}$\<close> (line 67) is a sequence of nine bracket classes,
  each consuming exactly one character, followed by \<open>$\<close>. \<open>match_items\<close> is what
  \<open>re.match\<close> does with such a sequence from the start of the string: it returns the
  text left over, or \<open>None\<close> when a character is missing or outside its class.
\<close>

fun match_items :: "string list \<Rightarrow> string \<Rightarrow> string option" where
  "match_items [] s = Some s"
| "match_items (cls # items) [] = None"
| "match_items (cls # items) (c # s) = (if c \<in> set cls then match_items items s else None)"

text \<open>
  Python's \<open>$\<close> (without \<open>re.MULTILINE\<close>) holds at the end of the string and also just
  before a newline that is the last character of the string.
\<close>

definition at_dollar :: "string \<Rightarrow> bool" where
  "at_dollar rest = (rest = [] \<or> rest = [CHR 0x0A])"

definition mobile_re :: "string list" where
  "mobile_re = ''67'' # replicate 8 ''0123456789''"

definition mobile_re_match :: "string \<Rightarrow> bool" where
  "mobile_re_match s =
     (case match_items mobile_re s of None \<Rightarrow> False | Some rest \<Rightarrow> at_dollar rest)"

text \<open>
  The slice \<open>mobile[-9:]\<close>: the last nine characters, or the whole string when it has
  fewer than nine (the subtraction on \<open>nat\<close> stops at 0, as the slice does). A
  \<open>string\<close> here is a list of bytes; a character outside ASCII is in no class of the
  pattern, so nine matching characters are nine bytes and counting bytes or code points
  gives the same answer.
\<close>

definition last9 :: "string \<Rightarrow> string" where
  "last9 mobile = drop (length mobile - 9) mobile"

text \<open>
  \<open>valid_mobile\<close> (lines 64-69). The argument is a string or \<open>None\<close>
  (\<open>send_agreement\<close> passes its \<open>accept_phone\<close>, whose default is \<open>None\<close>);
  \<open>None[-9:]\<close> raises \<open>TypeError\<close>.
\<close>

definition valid_mobile :: "string option \<Rightarrow> error + bool" where
  "valid_mobile mobile =
     (case mobile of
        None \<Rightarrow> Inl TypeError
      | Some s \<Rightarrow> Inr (mobile_re_match (last9 s)))"

subsection \<open>The specification's wording of the mobile predicate\<close>

definition is_digit :: "char \<Rightarrow> bool" where
  "is_digit c = (48 \<le> (of_char c :: nat) \<and> (of_char c :: nat) \<le> 57)"

text \<open>A text that is the digit 6 or 7 followed by exactly eight more digits.\<close>

definition mobile_suffix_pattern :: "string \<Rightarrow> bool" where
  "mobile_suffix_pattern t =
     (case t of
        [] \<Rightarrow> False
      | c # cs \<Rightarrow> (c = CHR ''6'' \<or> c = CHR ''7'') \<and> length cs = 8 \<and> list_all is_digit cs)"

text \<open>
  isValidMobile as section 4.2 of the specification words it: the string has nine
  characters at least and its last nine match the pattern in full.
\<close>

definition isValidMobile_spec :: "string \<Rightarrow> bool" where
  "isValidMobile_spec s =
     (9 \<le> length s \<and> mobile_suffix_pattern (drop (length s - 9) s))"

section \<open>build_attachments\<close>

text \<open>
  An input attachment is a dict with the keys \<open>name\<close> and \<open>data\<close> (the base64 text);
  a built attachment is the dict of lines 178-183, its fields named after the local
  variables that fill it.
\<close>

record attachment =
  name :: string
  data :: string

record attach_dict =
  attach_name :: string
  attach_type :: string
  attach_size :: nat
  attach_data :: string

type_synonym bytes = string

text \<open>
  The library calls made by \<open>build_attachments\<close> are parameters of the model:
  \<^item> \<open>guess_type n\<close> is \<open>mimetypes.guess_type(n)[0]\<close>, \<open>None\<close> when no type is known;
  \<^item> \<open>b64decode\<close> is \<open>base64.b64decode\<close>, \<open>None\<close> when it raises;
  \<^item> \<open>b64encode\<close> is \<open>base64.b64encode\<close>;
  \<^item> \<open>PdfFileMerger\<close> is a new merger, \<open>merger_append\<close> is \<open>merger.append\<close> on the
    temporary file holding the decoded bytes and \<open>merger_write\<close> is \<open>merger.write\<close>
    followed by reading the written file back; \<open>None\<close> when PyPDF2 raises.
\<close>

record 'm primitives =
  guess_type :: "string \<Rightarrow> string option"
  b64decode :: "string \<Rightarrow> bytes option"
  b64encode :: "bytes \<Rightarrow> string"
  PdfFileMerger :: 'm
  merger_append :: "'m \<Rightarrow> bytes \<Rightarrow> 'm option"
  merger_write :: "'m \<Rightarrow> bytes option"

text \<open>The loop of lines 150-155: decode one attachment, append it to the merger.\<close>

fun merge_loop :: "('m, 'z) primitives_scheme \<Rightarrow> 'm \<Rightarrow> attachment list \<Rightarrow> error + 'm" where
  "merge_loop P merger [] = Inr merger"
| "merge_loop P merger (attachment # rest) =
     (case b64decode P (data attachment) of
        None \<Rightarrow> Inl Base64Error
      | Some temp_file \<Rightarrow>
          (case merger_append P merger temp_file of
             None \<Rightarrow> Inl PdfError
           | Some merger' \<Rightarrow> merge_loop P merger' rest))"

text \<open>
  The merge branch, lines 140-162, entered only with more than one attachment (so
  \<open>attach_types[0]\<close> and \<open>attachments[0]\<close> exist). It yields the list that the name
  \<open>attachments\<close> is rebound to in line 159.
\<close>

definition merge_branch :: "('m, 'z) primitives_scheme \<Rightarrow> attachment list \<Rightarrow> error + attachment list" where
  "merge_branch P attachments =
     (let attach_types = map (\<lambda>x. guess_type P (name x)) attachments in
      if \<not> (card (set attach_types) = 1 \<and> hd attach_types = Some ''application/pdf'')
      then Inl (exception ''Merge only allowed if all files are pdfs'')
      else
        let merge_name = name (hd attachments) in
        case merge_loop P (PdfFileMerger P) attachments of
          Inl e \<Rightarrow> Inl e
        | Inr merger \<Rightarrow>
            (case merger_write P merger of
               None \<Rightarrow> Inl PdfError
             | Some merge_file \<Rightarrow>
                 Inr [\<lparr>name = merge_name, data = b64encode P merge_file\<rparr>]))"

text \<open>
  \<open>int(len(attach_data) * 0.75)\<close>, line 177. The product is a double; for every length
  \<open>n\<close> with \<open>3 * n < 2 ^ 53\<close> (texts of up to about \<open>3 * 10 ^ 15\<close> characters) the value
  \<open>3 * n / 4\<close> is a double, so the product is exact and \<open>int\<close> cuts it to
  \<open>3 * n div 4\<close>. The model is this integer computation.
\<close>

definition estimate_size :: "string \<Rightarrow> nat" where
  "estimate_size b64 = (length b64 * 3) div 4"

text \<open>
  The loop of lines 164-184, with the list \<open>build\<close> as accumulator; an unknown type
  raises at once and the records built so far are lost with the local variable.
\<close>

fun build_loop ::
  "('m, 'z) primitives_scheme \<Rightarrow> attachment list \<Rightarrow> attach_dict list \<Rightarrow> error + attach_dict list" where
  "build_loop P [] build = Inr build"
| "build_loop P (attachment # rest) build =
     (case guess_type P (name attachment) of
        None \<Rightarrow> Inl (exception (''Cannot guess mime type for '' @ name attachment))
      | Some t \<Rightarrow>
          build_loop P rest
            (build @ [\<lparr>attach_name = name attachment, attach_type = t,
                       attach_size = estimate_size (data attachment),
                       attach_data = data attachment\<rparr>]))"

text \<open>
  The list that reaches the loop of line 164: the merged single attachment when the
  merge branch is taken, the argument itself otherwise.
\<close>

definition merge_step :: "('m, 'z) primitives_scheme \<Rightarrow> attachment list \<Rightarrow> bool \<Rightarrow> error + attachment list" where
  "merge_step P attachments merge =
     (if merge \<and> length attachments > 1 then merge_branch P attachments
      else Inr attachments)"

text \<open>\<open>build_attachments\<close>, lines 124-185.\<close>

definition build_attachments ::
  "('m, 'z) primitives_scheme \<Rightarrow> attachment list \<Rightarrow> bool \<Rightarrow> error + attach_dict list" where
  "build_attachments P attachments merge =
     (case merge_step P attachments merge of
        Inl e \<Rightarrow> Inl e
      | Inr attachments' \<Rightarrow> build_loop P attachments' [])"

subsection \<open>The specification's merge primitive\<close>

text \<open>
  \<open>mergePdfPages\<close> of section 6 of the specification takes the binary streams in order
  and returns the merged stream. With PyPDF2 this is: a new merger, one \<open>append\<close> per
  stream in order, then \<open>write\<close>.
\<close>

fun append_all :: "('m, 'z) primitives_scheme \<Rightarrow> 'm \<Rightarrow> bytes list \<Rightarrow> 'm option" where
  "append_all P merger [] = Some merger"
| "append_all P merger (stream # streams) =
     (case merger_append P merger stream of
        None \<Rightarrow> None
      | Some merger' \<Rightarrow> append_all P merger' streams)"

definition mergePdfPages :: "('m, 'z) primitives_scheme \<Rightarrow> bytes list \<Rightarrow> bytes option" where
  "mergePdfPages P streams =
     (case append_all P (PdfFileMerger P) streams of
        None \<Rightarrow> None
      | Some merger \<Rightarrow> merger_write P merger)"

text \<open>
  The normalized record of an attachment, step 2 of the specification's algorithm: the
  name and the data of the attachment, the type inferred from the name, the estimated
  size of the data.
\<close>

definition normalizes :: "('m, 'z) primitives_scheme \<Rightarrow> attachment \<Rightarrow> attach_dict \<Rightarrow> bool" where
  "normalizes P x r =
     (attach_name r = name x \<and> guess_type P (name x) = Some (attach_type r)
      \<and> attach_size r = estimate_size (data x) \<and> attach_data r = data x)"

subsection \<open>A small environment for evaluating the model\<close>

text \<open>
  A stand-in for the library calls, used to run the model on concrete attachments: file
  names ending in \<open>.pdf\<close> and \<open>.txt\<close> have the types \<open>mimetypes\<close> gives them, every
  other name has none; the codec is the identity on texts without \<open>!\<close> and rejects the
  others; a merger holds the streams appended so far, refuses a stream that does not
  start with \<open>%PDF\<close>, and writes the streams one after the other.
\<close>

definition sample_guess_type :: "string \<Rightarrow> string option" where
  "sample_guess_type n =
     (if drop (length n - 4) n = ''.pdf'' \<and> 4 < length n then Some ''application/pdf''
      else if drop (length n - 4) n = ''.txt'' \<and> 4 < length n then Some ''text/plain''
      else None)"

definition sample_b64decode :: "string \<Rightarrow> bytes option" where
  "sample_b64decode s = (if CHR ''!'' \<in> set s then None else Some s)"

definition sample_append :: "bytes list \<Rightarrow> bytes \<Rightarrow> bytes list option" where
  "sample_append merger stream =
     (if take 4 stream = ''%PDF'' then Some (merger @ [stream]) else None)"

definition sample_primitives :: "bytes list primitives" where
  "sample_primitives =
     \<lparr>guess_type = sample_guess_type,
      b64decode = sample_b64decode,
      b64encode = (\<lambda>b. b),
      PdfFileMerger = [],
      merger_append = sample_append,
      merger_write = (\<lambda>merger. Some (concat merger))\<rparr>"

section \<open>send_agreement\<close>

text \<open>\<open>'%s' % v\<close> for a value that is a string or \<open>None\<close>.\<close>

definition pystr :: "string option \<Rightarrow> string" where
  "pystr v = (case v of None \<Rightarrow> ''None'' | Some s \<Rightarrow> s)"

text \<open>
  Lines 214-226. The second \<open>if\<close> calls \<open>valid_mobile\<close> on \<open>accept_phone\<close> whatever the
  first one found; an exception of that call leaves \<open>send_agreement\<close>.
\<close>

definition accept_check :: "int option \<Rightarrow> string option \<Rightarrow> error + unit" where
  "accept_check accept_method accept_phone =
     (if accept_method = Some 1 then
        let exception_message =
              (if accept_phone = None
               then ''Cannot use sms acceptance method without a phone number''
               else [])
        in case valid_mobile accept_phone of
             Inl e \<Rightarrow> Inl e
           | Inr valid \<Rightarrow>
               let exception_message =
                     (if \<not> valid
                      then ''Mobile phone '' @ pystr accept_phone @
                           '' does not seem to be a valid number''
                      else exception_message)
               in if exception_message \<noteq> [] then Inl (exception exception_message)
                  else Inr ()
      else Inr ())"

text \<open>Lines 228-231.\<close>

definition sms_check :: "string option \<Rightarrow> error + unit" where
  "sms_check sms_phone =
     (case sms_phone of
        None \<Rightarrow> Inr ()
      | Some p \<Rightarrow>
          (case valid_mobile (Some p) of
             Inl e \<Rightarrow> Inl e
           | Inr valid \<Rightarrow>
               if \<not> valid
               then Inl (exception (''Mobile phone '' @ p @ '' do not seem to be a valid number''))
               else Inr ()))"

text \<open>The request dict of lines 235-250.\<close>

record request =
  userData :: "string \<times> string"
  request_to :: string
  request_subject :: string
  request_body :: string
  request_attachments :: "attach_dict list"
  request_sms :: "(string \<times> string) option"
  request_acceptance :: "(int \<times> string option) option"

text \<open>
  The remote side: the credentials, the outcome of building the SOAP client
  (\<open>self.connection\<close>, line 233; \<open>Some e\<close> when it raises \<open>e\<close>) and the outcome of
  lines 252-259 on a request, the message identifier or the exception raised.
\<close>

record gateway =
  user :: string
  password :: string
  connection :: "error option"
  sendAgreementWS :: "request \<Rightarrow> error + string"

datatype remote = Connect | Call request

text \<open>
  \<open>send_agreement\<close>, lines 187-259: the result or the exception, and the remote
  interactions that took place, in order.
\<close>

definition send_agreement ::
  "('m, 'z) primitives_scheme \<Rightarrow> gateway \<Rightarrow> string \<Rightarrow> string \<Rightarrow> string \<Rightarrow> attachment list \<Rightarrow>
   int option \<Rightarrow> string option \<Rightarrow> string option \<Rightarrow> string option \<Rightarrow>
   (error + string) \<times> remote list" where
  "send_agreement P G to subject body attachments accept_method accept_phone sms_phone sms_body =
     (case accept_check accept_method accept_phone of
        Inl e \<Rightarrow> (Inl e, [])
      | Inr _ \<Rightarrow>
     (case sms_check sms_phone of
        Inl e \<Rightarrow> (Inl e, [])
      | Inr _ \<Rightarrow>
     (case connection G of
        Some e \<Rightarrow> (Inl e, [Connect])
      | None \<Rightarrow>
     (case build_attachments P attachments True of
        Inl e \<Rightarrow> (Inl e, [Connect])
      | Inr built \<Rightarrow>
          let req = \<lparr>userData = (user G, password G),
                     request_to = to, request_subject = subject, request_body = body,
                     request_attachments = built,
                     request_sms =
                       (case (sms_phone, sms_body) of
                          (Some p, Some b) \<Rightarrow> if p \<noteq> [] \<and> b \<noteq> [] then Some (p, b) else None
                        | _ \<Rightarrow> None),
                     request_acceptance =
                       (if accept_method = Some 1 then Some (1, accept_phone) else None)\<rparr>
          in (sendAgreementWS G req, [Connect, Call req])))))"

definition sample_gateway :: gateway where
  "sample_gateway =
     \<lparr>user = ''u'', password = ''p'', connection = None,
      sendAgreementWS = (\<lambda>req. Inr ''id-1'')\<rparr>"

section \<open>build_attachments on a store\<close>

text \<open>
  To speak about what \<open>build_attachments\<close> does to the objects it is given, the lists and
  dicts live in a store: an address is an index into a list of objects, and a new object
  is put at the end. A dict is its items in insertion order; a dict value is a string or
  a number.
\<close>

type_synonym addr = nat

datatype pyval = Str string | Num nat

datatype pyobj = Dict "(string \<times> pyval) list" | List "addr list"

type_synonym heap = "pyobj list"

definition lookup :: "heap \<Rightarrow> addr \<Rightarrow> pyobj option" where
  "lookup h a = (if a < length h then Some (h ! a) else None)"

definition alloc :: "heap \<Rightarrow> pyobj \<Rightarrow> addr \<times> heap" where
  "alloc h obj = (length h, h @ [obj])"

text \<open>\<open>x[key]\<close> for the object at address \<open>x\<close>, which has to be a dict.\<close>

definition getitem :: "heap \<Rightarrow> addr \<Rightarrow> string \<Rightarrow> error + pyval" where
  "getitem h x key =
     (case lookup h x of
        Some (Dict items) \<Rightarrow>
          (case map_of items key of None \<Rightarrow> Inl KeyError | Some v \<Rightarrow> Inr v)
      | Some (List xs) \<Rightarrow> Inl TypeError
      | None \<Rightarrow> Inl TypeError)"

text \<open>\<open>l.append(x)\<close> for the list at address \<open>l\<close>.\<close>

definition list_append :: "heap \<Rightarrow> addr \<Rightarrow> addr \<Rightarrow> heap" where
  "list_append h l x =
     (case lookup h l of
        Some (List xs) \<Rightarrow> h[l := List (xs @ [x])]
      | _ \<Rightarrow> h)"

text \<open>The list comprehension of lines 141-142; it reads and allocates nothing that stays.\<close>

fun guess_types_h :: "('m, 'z) primitives_scheme \<Rightarrow> heap \<Rightarrow> addr list \<Rightarrow> error + string option list" where
  "guess_types_h P h [] = Inr []"
| "guess_types_h P h (x # xs) =
     (case getitem h x ''name'' of
        Inl e \<Rightarrow> Inl e
      | Inr (Num n) \<Rightarrow> Inl TypeError
      | Inr (Str n) \<Rightarrow>
          (case guess_types_h P h xs of
             Inl e \<Rightarrow> Inl e
           | Inr ts \<Rightarrow> Inr (guess_type P n # ts)))"

text \<open>Lines 150-155; the temporary files are not objects of the store.\<close>

fun merge_loop_h :: "('m, 'z) primitives_scheme \<Rightarrow> heap \<Rightarrow> 'm \<Rightarrow> addr list \<Rightarrow> error + 'm" where
  "merge_loop_h P h merger [] = Inr merger"
| "merge_loop_h P h merger (x # xs) =
     (case getitem h x ''data'' of
        Inl e \<Rightarrow> Inl e
      | Inr (Num n) \<Rightarrow> Inl TypeError
      | Inr (Str d) \<Rightarrow>
          (case b64decode P d of
             None \<Rightarrow> Inl Base64Error
           | Some temp_file \<Rightarrow>
               (case merger_append P merger temp_file of
                  None \<Rightarrow> Inl PdfError
                | Some merger' \<Rightarrow> merge_loop_h P h merger' xs)))"

text \<open>
  Lines 140-162 on the elements \<open>xs\<close> of the argument list. Line 159 builds a new dict and
  a new one-element list; the address of that list is what the name \<open>attachments\<close> is
  bound to afterwards.
\<close>

definition merge_branch_h :: "('m, 'z) primitives_scheme \<Rightarrow> heap \<Rightarrow> addr list \<Rightarrow> (error + addr) \<times> heap" where
  "merge_branch_h P h xs =
     (case guess_types_h P h xs of
        Inl e \<Rightarrow> (Inl e, h)
      | Inr attach_types \<Rightarrow>
          if \<not> (card (set attach_types) = 1 \<and> hd attach_types = Some ''application/pdf'')
          then (Inl (exception ''Merge only allowed if all files are pdfs''), h)
          else
            (case getitem h (hd xs) ''name'' of
               Inl e \<Rightarrow> (Inl e, h)
             | Inr merge_name \<Rightarrow>
            (case merge_loop_h P h (PdfFileMerger P) xs of
               Inl e \<Rightarrow> (Inl e, h)
             | Inr merger \<Rightarrow>
            (case merger_write P merger of
               None \<Rightarrow> (Inl PdfError, h)
             | Some merge_file \<Rightarrow>
                 (case alloc h (Dict [(''name'', merge_name),
                                      (''data'', Str (b64encode P merge_file))]) of
                    (d, h1) \<Rightarrow> (case alloc h1 (List [d]) of (l, h2) \<Rightarrow> (Inr l, h2)))))))"

text \<open>
  Lines 164-184 over the elements \<open>xs\<close> of the list bound to \<open>attachments\<close>, with
  \<open>build\<close> the address of the result list. The elements are those the list has when the
  loop starts: the loop appends to \<open>build\<close> only, which is another list.
\<close>

fun build_loop_h :: "('m, 'z) primitives_scheme \<Rightarrow> heap \<Rightarrow> addr \<Rightarrow> addr list \<Rightarrow> (error + unit) \<times> heap" where
  "build_loop_h P h build [] = (Inr (), h)"
| "build_loop_h P h build (x # xs) =
     (case getitem h x ''name'' of
        Inl e \<Rightarrow> (Inl e, h)
      | Inr name_v \<Rightarrow>
     (case getitem h x ''data'' of
        Inl e \<Rightarrow> (Inl e, h)
      | Inr data_v \<Rightarrow>
     (case name_v of
        Num n \<Rightarrow> (Inl TypeError, h)
      | Str an \<Rightarrow>
     (case guess_type P an of
        None \<Rightarrow> (Inl (exception (''Cannot guess mime type for '' @ an)), h)
      | Some t \<Rightarrow>
     (case data_v of
        Num n \<Rightarrow> (Inl TypeError, h)
      | Str ad \<Rightarrow>
          (case alloc h (Dict [(''name'', Str an), (''type'', Str t),
                               (''size'', Num (estimate_size ad)), (''data'', Str ad)]) of
             (d, h1) \<Rightarrow> build_loop_h P (list_append h1 build d) build xs))))))"

text \<open>
  \<open>build_attachments\<close> on the store: \<open>attachments\<close> is the address of the argument, the
  result is the address of the list returned (or the exception) and the store the call
  leaves behind. The argument is a list, as the docstring says; on another object the
  model stops with \<open>TypeError\<close>. Strings are immutable, so a string that an output dict
  shares with an input dict is a value, not an object of the store.
\<close>

definition build_attachments_h ::
  "('m, 'z) primitives_scheme \<Rightarrow> heap \<Rightarrow> addr \<Rightarrow> bool \<Rightarrow> (error + addr) \<times> heap" where
  "build_attachments_h P h attachments merge =
     (case alloc h (List []) of
        (build, h1) \<Rightarrow>
          (case lookup h1 attachments of
             Some (List xs) \<Rightarrow>
               (case (if merge \<and> length xs > 1 then merge_branch_h P h1 xs
                      else (Inr attachments, h1)) of
                  (Inl e, h2) \<Rightarrow> (Inl e, h2)
                | (Inr attachments', h2) \<Rightarrow>
                    (case lookup h2 attachments' of
                       Some (List xs') \<Rightarrow>
                         (case build_loop_h P h2 build xs' of
                            (Inl e, h3) \<Rightarrow> (Inl e, h3)
                          | (Inr u, h3) \<Rightarrow> (Inr build, h3))
                     | Some (Dict items) \<Rightarrow> (Inl TypeError, h2)
                     | None \<Rightarrow> (Inl TypeError, h2)))
           | Some (Dict items) \<Rightarrow> (Inl TypeError, h1)
           | None \<Rightarrow> (Inl TypeError, h1)))"

text \<open>
  The invariant of a call that started in the store \<open>h0\<close>: the objects of \<open>h0\<close> are
  as they were, and the result list \<open>build\<close> is a later object that holds later dicts.
\<close>

definition building :: "heap \<Rightarrow> addr \<Rightarrow> heap \<Rightarrow> bool" where
  "building h0 build h \<longleftrightarrow>
     take (length h0) h = h0 \<and> length h0 \<le> build \<and> build < length h \<and>
     (\<exists>ds. h ! build = List ds \<and>
        (\<forall>d\<in>set ds. length h0 \<le> d \<and> d < length h \<and> (\<exists>items. h ! d = Dict items)))"

text \<open>Reading the store: the attachments of a list of dicts, and the built records.\<close>

definition attachment_at :: "heap \<Rightarrow> addr \<Rightarrow> attachment option" where
  "attachment_at h x =
     (case (getitem h x ''name'', getitem h x ''data'') of
        (Inr (Str n), Inr (Str d)) \<Rightarrow> Some \<lparr>name = n, data = d\<rparr>
      | _ \<Rightarrow> None)"

definition attach_dict_at :: "heap \<Rightarrow> addr \<Rightarrow> attach_dict option" where
  "attach_dict_at h x =
     (case lookup h x of
        Some (Dict [(k1, Str n), (k2, Str t), (k3, Num z), (k4, Str d)]) \<Rightarrow>
          if k1 = ''name'' \<and> k2 = ''type'' \<and> k3 = ''size'' \<and> k4 = ''data''
          then Some \<lparr>attach_name = n, attach_type = t, attach_size = z, attach_data = d\<rparr>
          else None
      | _ \<Rightarrow> None)"

fun those_map :: "('a \<Rightarrow> 'b option) \<Rightarrow> 'a list \<Rightarrow> 'b list option" where
  "those_map f [] = Some []"
| "those_map f (x # xs) =
     (case f x of
        None \<Rightarrow> None
      | Some y \<Rightarrow> (case those_map f xs of None \<Rightarrow> None | Some ys \<Rightarrow> Some (y # ys)))"

definition attachments_at :: "heap \<Rightarrow> addr \<Rightarrow> attachment list option" where
  "attachments_at h l =
     (case lookup h l of
        Some (List xs) \<Rightarrow> those_map (attachment_at h) xs
      | _ \<Rightarrow> None)"

definition build_at :: "heap \<Rightarrow> addr \<Rightarrow> attach_dict list option" where
  "build_at h l =
     (case lookup h l of
        Some (List xs) \<Rightarrow> those_map (attach_dict_at h) xs
      | _ \<Rightarrow> None)"

definition sample_heap :: heap where
  "sample_heap =
     [Dict [(''name'', Str ''a.pdf''), (''data'', Str ''%PDF-a'')],
      Dict [(''name'', Str ''b.pdf''), (''data'', Str ''%PDF-bb'')],
      List [0, 1]]"

section \<open>Properties of valid_mobile\<close>

lemma nat_48_57:
  "48 \<le> (n::nat) \<Longrightarrow> n \<le> 57 \<Longrightarrow> n \<in> {48, 49, 50, 51, 52, 53, 54, 55, 56, 57}"
  by (simp; arith)

lemma is_digit_set: "is_digit c \<longleftrightarrow> c \<in> set ''0123456789''"
proof
  assume "is_digit c"
  then have "(of_char c :: nat) \<in> {48, 49, 50, 51, 52, 53, 54, 55, 56, 57}"
    unfolding is_digit_def by (intro nat_48_57) simp_all
  then consider "(of_char c :: nat) = of_char CHR ''0''" | "(of_char c :: nat) = of_char CHR ''1''"
    | "(of_char c :: nat) = of_char CHR ''2''" | "(of_char c :: nat) = of_char CHR ''3''"
    | "(of_char c :: nat) = of_char CHR ''4''" | "(of_char c :: nat) = of_char CHR ''5''"
    | "(of_char c :: nat) = of_char CHR ''6''" | "(of_char c :: nat) = of_char CHR ''7''"
    | "(of_char c :: nat) = of_char CHR ''8''" | "(of_char c :: nat) = of_char CHR ''9''"
    by auto
  then have "c = CHR ''0'' \<or> c = CHR ''1'' \<or> c = CHR ''2'' \<or> c = CHR ''3'' \<or> c = CHR ''4''
      \<or> c = CHR ''5'' \<or> c = CHR ''6'' \<or> c = CHR ''7'' \<or> c = CHR ''8'' \<or> c = CHR ''9''"
    by cases (simp_all only: of_char_eq_iff simp_thms)
  then show "c \<in> set ''0123456789''"
    by auto
next
  assume "c \<in> set ''0123456789''"
  then show "is_digit c"
    unfolding is_digit_def by auto
qed

text \<open>What a successful run of the nine classes leaves: a prefix matched class by class.\<close>

lemma match_items_Some:
  "match_items items s = Some rest \<longleftrightarrow>
     (\<exists>pre. s = pre @ rest \<and> list_all2 (\<lambda>c cls. c \<in> set cls) pre items)"
proof (induction items s rule: match_items.induct)
  case (1 s)
  then show ?case by auto
next
  case (2 cls items)
  then show ?case by auto
next
  case (3 cls items c s)
  then show ?case
    by (auto simp: list_all2_Cons2 Cons_eq_append_conv)
qed

text \<open>
  On a text of at most nine characters nothing is left after the nine classes, so the
  newline case of \<open>$\<close> never applies to the slice.
\<close>

lemma mobile_re_match_short:
  assumes "length t \<le> 9"
  shows "mobile_re_match t \<longleftrightarrow> list_all2 (\<lambda>c cls. c \<in> set cls) t mobile_re"
proof
  assume "mobile_re_match t"
  then obtain rest where m: "match_items mobile_re t = Some rest"
    unfolding mobile_re_match_def by (auto split: option.splits)
  then obtain pre where p: "t = pre @ rest" "list_all2 (\<lambda>c cls. c \<in> set cls) pre mobile_re"
    unfolding match_items_Some by blast
  from p(2) have "length pre = 9"
    by (simp add: list_all2_lengthD mobile_re_def)
  with p(1) assms have "rest = []" by simp
  with p show "list_all2 (\<lambda>c cls. c \<in> set cls) t mobile_re" by simp
next
  assume "list_all2 (\<lambda>c cls. c \<in> set cls) t mobile_re"
  then have "match_items mobile_re t = Some []"
    unfolding match_items_Some by simp
  then show "mobile_re_match t"
    by (simp add: mobile_re_match_def at_dollar_def)
qed

lemma list_all2_replicate:
  "list_all2 P xs (replicate n y) \<longleftrightarrow> length xs = n \<and> list_all (\<lambda>x. P x y) xs"
proof (induction n arbitrary: xs)
  case 0
  then show ?case by auto
next
  case (Suc n)
  then show ?case by (cases xs) auto
qed

lemma class_match_pattern:
  "list_all2 (\<lambda>c cls. c \<in> set cls) t mobile_re \<longleftrightarrow> mobile_suffix_pattern t"
  unfolding mobile_re_def mobile_suffix_pattern_def
  by (cases t) (auto simp: list_all2_replicate is_digit_set list_all_iff)

lemma valid_mobile_spec: "valid_mobile (Some s) = Inr (isValidMobile_spec s)"
proof (cases "9 \<le> length s")
  case True
  then show ?thesis
    unfolding valid_mobile_def isValidMobile_spec_def last9_def
    by (simp add: mobile_re_match_short class_match_pattern)
next
  case False
  have "\<not> mobile_suffix_pattern s"
    using False unfolding mobile_suffix_pattern_def by (auto split: list.splits)
  with False show ?thesis
    unfolding valid_mobile_def isValidMobile_spec_def last9_def
    by (simp add: mobile_re_match_short class_match_pattern)
qed

lemma valid_mobile_short: "length s < 9 \<Longrightarrow> valid_mobile (Some s) = Inr False"
  by (simp add: valid_mobile_spec isValidMobile_spec_def)

lemma valid_mobile_examples:
  "valid_mobile (Some ''612345678'') = Inr True"
  "valid_mobile (Some ''512345678'') = Inr False"
  by (simp_all add: valid_mobile_spec isValidMobile_spec_def mobile_suffix_pattern_def
      is_digit_def)

text \<open>
  C4. For every string \<open>s\<close>, \<open>valid_mobile\<close> returns true exactly when \<open>s\<close> has at least
  nine characters and its last nine are the digit 6 or 7 followed by eight digits; a
  string of fewer than nine characters gives false; \<open>612345678\<close> gives true and
  \<open>512345678\<close> gives false.
\<close>

theorem valid_mobile_iff_suffix_pattern:
  "valid_mobile (Some s) = Inr (isValidMobile_spec s)
   \<and> (length s < 9 \<longrightarrow> valid_mobile (Some s) = Inr False)
   \<and> valid_mobile (Some ''612345678'') = Inr True
   \<and> valid_mobile (Some ''512345678'') = Inr False"
  using valid_mobile_spec [of s] valid_mobile_short [of s] valid_mobile_examples by simp

theorem valid_mobile_iff_suffix_pattern_witness:
  "length ''12345'' < 9
   \<and> valid_mobile (Some ''12345'') = Inr False
   \<and> isValidMobile_spec ''+34712345678''
   \<and> valid_mobile (Some ''+34712345678'') = Inr True"
proof -
  have s: "isValidMobile_spec ''+34712345678''"
    by (simp add: isValidMobile_spec_def mobile_suffix_pattern_def is_digit_def)
  have l: "length ''12345'' < 9" by simp
  from valid_mobile_iff_suffix_pattern [of "''12345''"] l
  have a: "valid_mobile (Some ''12345'') = Inr False" by blast
  from valid_mobile_iff_suffix_pattern [of "''+34712345678''"] s
  have b: "valid_mobile (Some ''+34712345678'') = Inr True" by simp
  from l a s b show ?thesis by blast
qed

section \<open>Properties of build_attachments\<close>

lemma merge_loop_streams:
  "map (\<lambda>x. b64decode P (data x)) attachments = map Some streams \<Longrightarrow>
   merge_loop P merger attachments =
     (case append_all P merger streams of None \<Rightarrow> Inl PdfError | Some merger' \<Rightarrow> Inr merger')"
proof (induction attachments arbitrary: merger streams)
  case Nil
  then show ?case by simp
next
  case (Cons x attachments)
  then obtain s rest where "streams = s # rest" by (cases streams) auto
  with Cons show ?case by (auto split: option.splits)
qed

lemma build_loop_Inr_iff:
  "build_loop P xs acc = Inr build \<longleftrightarrow>
     (\<exists>new. build = acc @ new \<and> list_all2 (normalizes P) xs new)"
proof (induction xs arbitrary: acc)
  case Nil
  then show ?case by auto
next
  case (Cons x xs)
  show ?case
  proof (cases "guess_type P (name x)")
    case None
    then show ?thesis by (auto simp: list_all2_Cons1 normalizes_def)
  next
    case (Some t)
    have "(\<exists>new. build = (acc @ [\<lparr>attach_name = name x, attach_type = t,
                       attach_size = estimate_size (data x),
                       attach_data = data x\<rparr>]) @ new \<and> list_all2 (normalizes P) xs new)
       \<longleftrightarrow> (\<exists>new. build = acc @ new \<and> list_all2 (normalizes P) (x # xs) new)"
      using Some by (auto simp: list_all2_Cons1 normalizes_def)
    with Some Cons.IH show ?thesis by simp
  qed
qed

lemma build_loop_first_unknown:
  "find (\<lambda>x. guess_type P (name x) = None) xs = Some x \<Longrightarrow>
   build_loop P xs acc = Inl (exception (''Cannot guess mime type for '' @ name x))"
  by (induction xs arbitrary: acc) (auto split: if_splits option.splits)

lemma estimate_size_floor:
  "int (estimate_size d) = \<lfloor>0.75 * real (length d)\<rfloor>"
proof -
  have "0.75 * real (length d) = real (length d * 3) / real 4" by simp
  then show ?thesis
    unfolding estimate_size_def by (simp only: floor_divide_of_nat_eq)
qed



lemma card_one_hd:
  assumes "xs \<noteq> []"
  shows "(card (set xs) = 1 \<and> hd xs = v) \<longleftrightarrow> set xs = {v}"
proof
  assume a: "card (set xs) = 1 \<and> hd xs = v"
  then obtain w where w: "set xs = {w}"
    by (auto simp: card_1_singleton_iff)
  from assms a have "v \<in> set xs" by (cases xs) auto
  with w show "set xs = {v}" by simp
next
  assume s: "set xs = {v}"
  from assms have "hd xs \<in> set xs" by simp
  with s show "card (set xs) = 1 \<and> hd xs = v" by simp
qed

lemma merge_branch_not_pdf:
  assumes "attachments \<noteq> []"
    and "set (map (\<lambda>x. guess_type P (name x)) attachments) \<noteq> {Some ''application/pdf''}"
  shows "merge_branch P attachments =
           Inl (MailCertificadoException 0 ''Merge only allowed if all files are pdfs'')"
proof -
  have "map (\<lambda>x. guess_type P (name x)) attachments \<noteq> []"
    using assms(1) by simp
  from card_one_hd [OF this, of "Some ''application/pdf''"] assms(2)
  have "\<not> (card (set (map (\<lambda>x. guess_type P (name x)) attachments)) = 1
            \<and> hd (map (\<lambda>x. guess_type P (name x)) attachments) = Some ''application/pdf'')"
    by simp
  then show ?thesis
    unfolding merge_branch_def Let_def exception_def by simp
qed

lemma build_merge_not_pdf:
  assumes "1 < length attachments"
    and "set (map (\<lambda>x. guess_type P (name x)) attachments) \<noteq> {Some ''application/pdf''}"
  shows "build_attachments P attachments True =
           Inl (MailCertificadoException 0 ''Merge only allowed if all files are pdfs'')"
proof -
  from assms(1) have "attachments \<noteq> []" by auto
  from merge_branch_not_pdf [OF this assms(2)] assms(1) show ?thesis
    by (simp add: build_attachments_def merge_step_def)
qed

text \<open>
  C2. With the merge flag and more than one attachment, when the set of types inferred
  from the file names is not the one-element set holding \<open>application/pdf\<close>, the call fails with
  the library's exception, code 0 and the message of line 145, whatever the same list gives
  without the merge flag (the witness is a list that builds without it).
\<close>

theorem merge_requires_all_pdf:
  assumes "1 < length attachments"
    and "set (map (\<lambda>x. guess_type P (name x)) attachments) \<noteq> {Some ''application/pdf''}"
  shows "build_attachments P attachments True =
           Inl (MailCertificadoException 0 ''Merge only allowed if all files are pdfs'')
         \<and> is_ValidationError
             (MailCertificadoException 0 ''Merge only allowed if all files are pdfs'')"
  using build_merge_not_pdf [OF assms] by simp


lemma sample_simps:
  "guess_type sample_primitives = sample_guess_type"
  "b64decode sample_primitives = sample_b64decode"
  "b64encode sample_primitives = (\<lambda>b. b)"
  "PdfFileMerger sample_primitives = []"
  "merger_append sample_primitives = sample_append"
  "merger_write sample_primitives = (\<lambda>merger. Some (concat merger))"
  by (simp_all add: sample_primitives_def)

theorem merge_requires_all_pdf_witness:
  "1 < length [\<lparr>name = ''a.pdf'', data = ''%PDF-a''\<rparr>, \<lparr>name = ''b.txt'', data = ''hello''\<rparr>]
   \<and> set (map (\<lambda>x. guess_type sample_primitives (name x))
         [\<lparr>name = ''a.pdf'', data = ''%PDF-a''\<rparr>, \<lparr>name = ''b.txt'', data = ''hello''\<rparr>])
       \<noteq> {Some ''application/pdf''}
   \<and> build_attachments sample_primitives
        [\<lparr>name = ''a.pdf'', data = ''%PDF-a''\<rparr>, \<lparr>name = ''b.txt'', data = ''hello''\<rparr>] True
      = Inl (MailCertificadoException 0 ''Merge only allowed if all files are pdfs'')
   \<and> build_attachments sample_primitives
        [\<lparr>name = ''a.pdf'', data = ''%PDF-a''\<rparr>, \<lparr>name = ''b.txt'', data = ''hello''\<rparr>] False
      = Inr [\<lparr>attach_name = ''a.pdf'', attach_type = ''application/pdf'', attach_size = 4,
               attach_data = ''%PDF-a''\<rparr>,
             \<lparr>attach_name = ''b.txt'', attach_type = ''text/plain'', attach_size = 3,
               attach_data = ''hello''\<rparr>]"
proof -
  let ?xs = "[\<lparr>name = ''a.pdf'', data = ''%PDF-a''\<rparr>, \<lparr>name = ''b.txt'', data = ''hello''\<rparr>]"
  have l: "1 < length ?xs" by simp
  have t: "set (map (\<lambda>x. guess_type sample_primitives (name x)) ?xs) \<noteq> {Some ''application/pdf''}"
    by (simp add: sample_simps sample_guess_type_def)
  have f: "build_attachments sample_primitives ?xs False
      = Inr [\<lparr>attach_name = ''a.pdf'', attach_type = ''application/pdf'', attach_size = 4,
               attach_data = ''%PDF-a''\<rparr>,
             \<lparr>attach_name = ''b.txt'', attach_type = ''text/plain'', attach_size = 3,
               attach_data = ''hello''\<rparr>]"
    by (simp add: build_attachments_def merge_step_def sample_simps sample_guess_type_def
        estimate_size_def)
  from l t f merge_requires_all_pdf [OF l t] show ?thesis by simp
qed


lemma exception_message:
  "msg \<noteq> ''unknown'' \<Longrightarrow> exception msg = MailCertificadoException 0 msg"
  by (simp add: exception_def)

lemma merge_branch_pdf:
  assumes "attachments \<noteq> []"
    and "\<forall>x\<in>set attachments. guess_type P (name x) = Some ''application/pdf''"
    and "map (\<lambda>x. b64decode P (data x)) attachments = map Some streams"
    and "mergePdfPages P streams = Some merged"
  shows "merge_branch P attachments =
           Inr [\<lparr>name = name (hd attachments), data = b64encode P merged\<rparr>]"
proof -
  have ne: "map (\<lambda>x. guess_type P (name x)) attachments \<noteq> []"
    using assms(1) by simp
  have "set (map (\<lambda>x. guess_type P (name x)) attachments) = {Some ''application/pdf''}"
    using assms(1,2) by (cases attachments) auto
  with card_one_hd [OF ne, of "Some ''application/pdf''"]
  have ok: "card (set (map (\<lambda>x. guess_type P (name x)) attachments)) = 1
            \<and> hd (map (\<lambda>x. guess_type P (name x)) attachments) = Some ''application/pdf''"
    by simp
  from assms(4) obtain merger where
    m: "append_all P (PdfFileMerger P) streams = Some merger" "merger_write P merger = Some merged"
    unfolding mergePdfPages_def by (auto split: option.splits)
  from merge_loop_streams [OF assms(3), of "PdfFileMerger P"] m(1)
  have "merge_loop P (PdfFileMerger P) attachments = Inr merger" by simp
  with ok m(2) show ?thesis
    unfolding merge_branch_def Let_def by simp
qed

text \<open>
  C1. With the merge flag and two attachments at least, all with names of type
  \<open>application/pdf\<close>, whose payloads decode to \<open>streams\<close> and whose streams the merge primitive
  merges to \<open>merged\<close>, the result is the list of exactly one record: the name of the first
  attachment, the type \<open>application/pdf\<close>, and as data the base64 encoding of \<open>merged\<close>.
\<close>

theorem merge_pdfs:
  assumes "2 \<le> length attachments"
    and "\<forall>x\<in>set attachments. guess_type P (name x) = Some ''application/pdf''"
    and "map (\<lambda>x. b64decode P (data x)) attachments = map Some streams"
    and "mergePdfPages P streams = Some merged"
  shows "build_attachments P attachments True =
           Inr [\<lparr>attach_name = name (hd attachments),
                 attach_type = ''application/pdf'',
                 attach_size = estimate_size (b64encode P merged),
                 attach_data = b64encode P merged\<rparr>]"
proof -
  from assms(1) have ne: "attachments \<noteq> []" and l: "1 < length attachments" by auto
  from ne assms(2) have "guess_type P (name (hd attachments)) = Some ''application/pdf''"
    by simp
  with merge_branch_pdf [OF ne assms(2,3,4)] l show ?thesis
    by (simp add: build_attachments_def merge_step_def)
qed

theorem merge_pdfs_witness:
  "2 \<le> length [\<lparr>name = ''a.pdf'', data = ''%PDF-a''\<rparr>, \<lparr>name = ''b.pdf'', data = ''%PDF-bb''\<rparr>]
   \<and> list_all (\<lambda>x. guess_type sample_primitives (name x) = Some ''application/pdf'')
         [\<lparr>name = ''a.pdf'', data = ''%PDF-a''\<rparr>, \<lparr>name = ''b.pdf'', data = ''%PDF-bb''\<rparr>]
   \<and> map (\<lambda>x. b64decode sample_primitives (data x))
        [\<lparr>name = ''a.pdf'', data = ''%PDF-a''\<rparr>, \<lparr>name = ''b.pdf'', data = ''%PDF-bb''\<rparr>]
      = map Some [''%PDF-a'', ''%PDF-bb'']
   \<and> mergePdfPages sample_primitives [''%PDF-a'', ''%PDF-bb''] = Some ''%PDF-a%PDF-bb''
   \<and> build_attachments sample_primitives
        [\<lparr>name = ''a.pdf'', data = ''%PDF-a''\<rparr>, \<lparr>name = ''b.pdf'', data = ''%PDF-bb''\<rparr>] True
      = Inr [\<lparr>attach_name = ''a.pdf'', attach_type = ''application/pdf'', attach_size = 9,
               attach_data = ''%PDF-a%PDF-bb''\<rparr>]"
proof -
  let ?xs = "[\<lparr>name = ''a.pdf'', data = ''%PDF-a''\<rparr>, \<lparr>name = ''b.pdf'', data = ''%PDF-bb''\<rparr>]"
  have l: "2 \<le> length ?xs" by simp
  have t: "\<forall>x\<in>set ?xs. guess_type sample_primitives (name x) = Some ''application/pdf''"
    by (simp add: sample_simps sample_guess_type_def)
  have d: "map (\<lambda>x. b64decode sample_primitives (data x)) ?xs = map Some [''%PDF-a'', ''%PDF-bb'']"
    by (simp add: sample_simps sample_b64decode_def)
  have m: "mergePdfPages sample_primitives [''%PDF-a'', ''%PDF-bb''] = Some ''%PDF-a%PDF-bb''"
    by (simp add: mergePdfPages_def sample_simps sample_append_def)
  from merge_pdfs [OF l t d m]
  have "build_attachments sample_primitives ?xs True
      = Inr [\<lparr>attach_name = ''a.pdf'', attach_type = ''application/pdf'', attach_size = 9,
               attach_data = ''%PDF-a%PDF-bb''\<rparr>]"
    by (simp add: sample_simps estimate_size_def)
  with l t d m show ?thesis by (simp only: list_all_iff simp_thms)
qed


lemma build_attachments_Inr:
  assumes "build_attachments P attachments merge = Inr build"
  shows "\<exists>attachments'. merge_step P attachments merge = Inr attachments'
           \<and> list_all2 (normalizes P) attachments' build"
proof -
  from assms obtain attachments' where
    m: "merge_step P attachments merge = Inr attachments'" and
    b: "build_loop P attachments' [] = Inr build"
    unfolding build_attachments_def by (auto split: sum.splits)
  from b have "list_all2 (normalizes P) attachments' build"
    unfolding build_loop_Inr_iff by simp
  with m show ?thesis by blast
qed

lemma normalizes_size:
  "normalizes P x r \<Longrightarrow> int (attach_size r) = \<lfloor>0.75 * real (length (attach_data r))\<rfloor>"
  unfolding normalizes_def using estimate_size_floor [of "attach_data r"] by simp

text \<open>
  C3. In every record of a list that \<open>build_attachments\<close> returns, merged or not, the
  size is the floor of 0.75 times the length of the record's base64 text.
\<close>

theorem size_is_floor_of_three_quarters:
  assumes "build_attachments P attachments merge = Inr build"
  shows "\<forall>r\<in>set build. int (attach_size r) = \<lfloor>0.75 * real (length (attach_data r))\<rfloor>"
proof
  fix r
  assume "r \<in> set build"
  moreover from build_attachments_Inr [OF assms] obtain attachments' where
    "list_all2 (normalizes P) attachments' build" by blast
  ultimately obtain x where "normalizes P x r"
    by (auto simp: list_all2_conv_all_nth in_set_conv_nth)
  then show "int (attach_size r) = \<lfloor>0.75 * real (length (attach_data r))\<rfloor>"
    by (rule normalizes_size)
qed

lemma sample_merged:
  "build_attachments sample_primitives
     [\<lparr>name = ''a.pdf'', data = ''%PDF-a''\<rparr>, \<lparr>name = ''b.pdf'', data = ''%PDF-bb''\<rparr>] True
   = Inr [\<lparr>attach_name = ''a.pdf'', attach_type = ''application/pdf'', attach_size = 9,
            attach_data = ''%PDF-a%PDF-bb''\<rparr>]"
  by (simp add: build_attachments_def merge_step_def merge_branch_def sample_simps
      sample_guess_type_def sample_b64decode_def sample_append_def estimate_size_def)

lemma sample_passthrough:
  "build_attachments sample_primitives
     [\<lparr>name = ''a.pdf'', data = ''%PDF-a''\<rparr>, \<lparr>name = ''b.txt'', data = ''hello''\<rparr>] False
   = Inr [\<lparr>attach_name = ''a.pdf'', attach_type = ''application/pdf'', attach_size = 4,
            attach_data = ''%PDF-a''\<rparr>,
          \<lparr>attach_name = ''b.txt'', attach_type = ''text/plain'', attach_size = 3,
            attach_data = ''hello''\<rparr>]"
  by (simp add: build_attachments_def merge_step_def sample_simps sample_guess_type_def
      estimate_size_def)

theorem size_is_floor_of_three_quarters_witness:
  "build_attachments sample_primitives
     [\<lparr>name = ''a.pdf'', data = ''%PDF-a''\<rparr>, \<lparr>name = ''b.txt'', data = ''hello''\<rparr>] False
   = Inr [\<lparr>attach_name = ''a.pdf'', attach_type = ''application/pdf'', attach_size = 4,
            attach_data = ''%PDF-a''\<rparr>,
          \<lparr>attach_name = ''b.txt'', attach_type = ''text/plain'', attach_size = 3,
            attach_data = ''hello''\<rparr>]
   \<and> list_all (\<lambda>r. int (attach_size r) = \<lfloor>0.75 * real (length (attach_data r))\<rfloor>)
         [\<lparr>attach_name = ''a.pdf'', attach_type = ''application/pdf'', attach_size = 4,
            attach_data = ''%PDF-a''\<rparr>,
          \<lparr>attach_name = ''b.txt'', attach_type = ''text/plain'', attach_size = 3,
            attach_data = ''hello''\<rparr>]"
  using sample_passthrough size_is_floor_of_three_quarters [OF sample_passthrough]
  by (simp only: list_all_iff simp_thms)

lemma cannot_guess_message:
  "exception (''Cannot guess mime type for '' @ n) =
     MailCertificadoException 0 (''Cannot guess mime type for '' @ n)"
  by (simp add: exception_def)

lemma find_first_unknown:
  assumes "y \<in> set xs" and "guess_type P (name y) = None"
  shows "\<exists>x\<in>set xs. guess_type P (name x) = None
           \<and> find (\<lambda>x. guess_type P (name x) = None) xs = Some x"
proof -
  from assms have "find (\<lambda>x. guess_type P (name x) = None) xs \<noteq> None"
    by (auto simp: find_None_iff)
  then obtain x where f: "find (\<lambda>x. guess_type P (name x) = None) xs = Some x" by auto
  then have "x \<in> set xs \<and> guess_type P (name x) = None"
    by (auto simp: find_Some_iff)
  with f show ?thesis by blast
qed

lemma build_attachments_first_unknown:
  assumes "merge_step P attachments merge = Inr attachments'"
    and "find (\<lambda>x. guess_type P (name x) = None) attachments' = Some x"
  shows "build_attachments P attachments merge =
           Inl (MailCertificadoException 0 (''Cannot guess mime type for '' @ name x))"
proof -
  have "build_loop P attachments' [] =
          Inl (MailCertificadoException 0 (''Cannot guess mime type for '' @ name x))"
    unfolding build_loop_first_unknown [OF assms(2)] cannot_guess_message ..
  then show ?thesis
    unfolding build_attachments_def assms(1) by simp
qed

text \<open>
  C6. When the call reaches the loop over the attachments with the list \<open>attachments'\<close> and
  the type of some attachment of that list cannot be inferred, the call fails with the
  library's exception, whose description ends with the file name of the first such
  attachment; the result is the exception and no list.
\<close>

theorem unknown_type_fails:
  assumes "merge_step P attachments merge = Inr attachments'"
    and "y \<in> set attachments'" and "guess_type P (name y) = None"
  shows "\<exists>x\<in>set attachments'.
           guess_type P (name x) = None
           \<and> find (\<lambda>x. guess_type P (name x) = None) attachments' = Some x
           \<and> build_attachments P attachments merge =
               Inl (MailCertificadoException 0 (''Cannot guess mime type for '' @ name x))"
proof -
  from find_first_unknown [OF assms(2,3)] obtain x where
    x: "x \<in> set attachments'" "guess_type P (name x) = None"
       "find (\<lambda>x. guess_type P (name x) = None) attachments' = Some x"
    by blast
  from build_attachments_first_unknown [OF assms(1) x(3)] x show ?thesis by blast
qed

theorem unknown_type_fails_witness:
  "merge_step sample_primitives
     [\<lparr>name = ''a.pdf'', data = ''%PDF-a''\<rparr>, \<lparr>name = ''x.unknownext'', data = ''hello''\<rparr>,
      \<lparr>name = ''noext'', data = ''hello''\<rparr>] False
   = Inr [\<lparr>name = ''a.pdf'', data = ''%PDF-a''\<rparr>, \<lparr>name = ''x.unknownext'', data = ''hello''\<rparr>,
          \<lparr>name = ''noext'', data = ''hello''\<rparr>]
   \<and> guess_type sample_primitives (name \<lparr>name = ''noext'', data = ''hello''\<rparr>) = None
   \<and> build_attachments sample_primitives
        [\<lparr>name = ''a.pdf'', data = ''%PDF-a''\<rparr>, \<lparr>name = ''x.unknownext'', data = ''hello''\<rparr>,
         \<lparr>name = ''noext'', data = ''hello''\<rparr>] False
      = Inl (MailCertificadoException 0 ''Cannot guess mime type for x.unknownext'')"
proof -
  let ?xs = "[\<lparr>name = ''a.pdf'', data = ''%PDF-a''\<rparr>, \<lparr>name = ''x.unknownext'', data = ''hello''\<rparr>,
      \<lparr>name = ''noext'', data = ''hello''\<rparr>]"
  have m: "merge_step sample_primitives ?xs False = Inr ?xs"
    by (simp add: merge_step_def)
  have y: "\<lparr>name = ''noext'', data = ''hello''\<rparr> \<in> set ?xs" by simp
  have g: "guess_type sample_primitives (name \<lparr>name = ''noext'', data = ''hello''\<rparr>) = None"
    by (simp add: sample_simps sample_guess_type_def)
  from unknown_type_fails [OF m y g]
  have "build_attachments sample_primitives ?xs False
      = Inl (MailCertificadoException 0 ''Cannot guess mime type for x.unknownext'')"
    by (auto simp: sample_simps sample_guess_type_def)
  with m g show ?thesis by blast
qed


lemma merge_branch_Inr:
  assumes "merge_branch P attachments = Inr attachments'"
  shows "\<exists>d. attachments' = [\<lparr>name = name (hd attachments), data = d\<rparr>]"
  using assms unfolding merge_branch_def Let_def
  by (auto split: if_splits sum.splits option.splits)

lemma merge_step_shape:
  assumes "merge_step P attachments merge = Inr attachments'"
  shows "if merge \<and> 1 < length attachments
         then length attachments' = 1 \<and> name (hd attachments') = name (hd attachments)
         else attachments' = attachments"
proof (cases "merge \<and> 1 < length attachments")
  case True
  with assms have "merge_branch P attachments = Inr attachments'"
    by (simp add: merge_step_def)
  from merge_branch_Inr [OF this] True show ?thesis by auto
next
  case False
  with assms show ?thesis by (auto simp: merge_step_def)
qed

lemma build_empty: "build_attachments P [] merge = Inr []"
  by (simp add: build_attachments_def merge_step_def)

lemma normalizes_nth:
  assumes "list_all2 (normalizes P) xs build"
  shows "length build = length xs
         \<and> (\<forall>i<length build. attach_name (build ! i) = name (xs ! i)
                               \<and> attach_data (build ! i) = data (xs ! i))"
  using assms by (auto simp: list_all2_conv_all_nth normalizes_def)

text \<open>
  C7. When \<open>build_attachments\<close> returns a list, the list has one record when the merge branch
  was taken (more than one attachment and the merge flag), and as many records as the
  argument otherwise; record \<open>i\<close> has the name and the data of attachment \<open>i\<close> of the list that
  reached the loop, which is the argument itself or the single merged attachment, named
  after the first attachment. The empty list with the merge flag gives the empty list.
\<close>

theorem build_mirrors_input:
  "(build_attachments P attachments merge = Inr build \<longrightarrow>
      (\<exists>attachments'.
          merge_step P attachments merge = Inr attachments'
          \<and> (if merge \<and> 1 < length attachments
              then length attachments' = 1 \<and> name (hd attachments') = name (hd attachments)
              else attachments' = attachments)
          \<and> length build = length attachments'
          \<and> (\<forall>i<length build. attach_name (build ! i) = name (attachments' ! i)
                                \<and> attach_data (build ! i) = data (attachments' ! i))))
   \<and> build_attachments P [] True = Inr []"
proof (intro conjI impI)
  assume "build_attachments P attachments merge = Inr build"
  from build_attachments_Inr [OF this] obtain attachments' where
    m: "merge_step P attachments merge = Inr attachments'" and
    n: "list_all2 (normalizes P) attachments' build"
    by blast
  from m merge_step_shape [OF m] normalizes_nth [OF n]
  show "\<exists>attachments'.
          merge_step P attachments merge = Inr attachments'
          \<and> (if merge \<and> 1 < length attachments
              then length attachments' = 1 \<and> name (hd attachments') = name (hd attachments)
              else attachments' = attachments)
          \<and> length build = length attachments'
          \<and> (\<forall>i<length build. attach_name (build ! i) = name (attachments' ! i)
                                \<and> attach_data (build ! i) = data (attachments' ! i))"
    by blast
next
  show "build_attachments P [] True = Inr []" by (rule build_empty)
qed

lemma sample_merge_step:
  "merge_step sample_primitives
     [\<lparr>name = ''a.pdf'', data = ''%PDF-a''\<rparr>, \<lparr>name = ''b.pdf'', data = ''%PDF-bb''\<rparr>] True
   = Inr [\<lparr>name = ''a.pdf'', data = ''%PDF-a%PDF-bb''\<rparr>]"
  by (simp add: merge_step_def merge_branch_def sample_simps
      sample_guess_type_def sample_b64decode_def sample_append_def)

theorem build_mirrors_input_witness:
  "build_attachments sample_primitives
     [\<lparr>name = ''a.pdf'', data = ''%PDF-a''\<rparr>, \<lparr>name = ''b.pdf'', data = ''%PDF-bb''\<rparr>] True
   = Inr [\<lparr>attach_name = ''a.pdf'', attach_type = ''application/pdf'', attach_size = 9,
            attach_data = ''%PDF-a%PDF-bb''\<rparr>]
   \<and> merge_step sample_primitives
       [\<lparr>name = ''a.pdf'', data = ''%PDF-a''\<rparr>, \<lparr>name = ''b.pdf'', data = ''%PDF-bb''\<rparr>] True
     = Inr [\<lparr>name = ''a.pdf'', data = ''%PDF-a%PDF-bb''\<rparr>]
   \<and> length [\<lparr>attach_name = ''a.pdf'', attach_type = ''application/pdf'', attach_size = 9,
               attach_data = ''%PDF-a%PDF-bb''\<rparr>] = 1
   \<and> build_attachments sample_primitives [] True = Inr []"
  using sample_merged sample_merge_step
    build_mirrors_input [of sample_primitives
      "[\<lparr>name = ''a.pdf'', data = ''%PDF-a''\<rparr>, \<lparr>name = ''b.pdf'', data = ''%PDF-bb''\<rparr>]" True
      "[\<lparr>attach_name = ''a.pdf'', attach_type = ''application/pdf'', attach_size = 9,
            attach_data = ''%PDF-a%PDF-bb''\<rparr>]"]
  by simp

text \<open>
  C8. On a list of exactly one attachment the merge flag changes nothing: the same
  result or the same exception with and without it.
\<close>

theorem merge_single_noop:
  assumes "length attachments = 1"
  shows "build_attachments P attachments True = build_attachments P attachments False"
  using assms by (simp add: build_attachments_def merge_step_def)

theorem merge_single_noop_witness:
  "length [\<lparr>name = ''a.txt'', data = ''hello''\<rparr>] = 1
   \<and> build_attachments sample_primitives [\<lparr>name = ''a.txt'', data = ''hello''\<rparr>] True
     = build_attachments sample_primitives [\<lparr>name = ''a.txt'', data = ''hello''\<rparr>] False
   \<and> build_attachments sample_primitives [\<lparr>name = ''a.txt'', data = ''hello''\<rparr>] False
     = Inr [\<lparr>attach_name = ''a.txt'', attach_type = ''text/plain'', attach_size = 3,
              attach_data = ''hello''\<rparr>]"
proof -
  have l: "length [\<lparr>name = ''a.txt'', data = ''hello''\<rparr>] = 1" by simp
  have f: "build_attachments sample_primitives [\<lparr>name = ''a.txt'', data = ''hello''\<rparr>] False
     = Inr [\<lparr>attach_name = ''a.txt'', attach_type = ''text/plain'', attach_size = 3,
              attach_data = ''hello''\<rparr>]"
    by (simp add: build_attachments_def merge_step_def sample_simps sample_guess_type_def
        estimate_size_def)
  from l f merge_single_noop [OF l, of sample_primitives] show ?thesis by blast
qed

lemma types_all_unknown:
  assumes "attachments \<noteq> []" and "\<forall>x\<in>set attachments. guess_type P (name x) = None"
  shows "set (map (\<lambda>x. guess_type P (name x)) attachments) = {None}"
  using assms by (cases attachments) auto

lemma build_unmerged_first_unknown:
  assumes "attachments \<noteq> []" and "\<forall>x\<in>set attachments. guess_type P (name x) = None"
  shows "build_attachments P attachments False =
           Inl (MailCertificadoException 0
                  (''Cannot guess mime type for '' @ name (hd attachments)))"
proof -
  from assms have "find (\<lambda>x. guess_type P (name x) = None) attachments = Some (hd attachments)"
    by (cases attachments) auto
  moreover have "merge_step P attachments False = Inr attachments"
    by (simp add: merge_step_def)
  ultimately show ?thesis
    by (rule build_attachments_first_unknown [rotated])
qed

text \<open>
  C10. With the merge flag and two attachments at least, none of whose names has an
  inferable type, the set of inferred types is the one-element set holding \<open>None\<close> and the call
  fails with the exception of the merge check (line 145), not with that of the loop
  (line 173) for any of the names; without the merge flag the same list fails in the loop.
\<close>

theorem merge_check_before_inference:
  assumes "2 \<le> length attachments"
    and "\<forall>x\<in>set attachments. guess_type P (name x) = None"
  shows "set (map (\<lambda>x. guess_type P (name x)) attachments) = {None}
         \<and> build_attachments P attachments True =
             Inl (MailCertificadoException 0 ''Merge only allowed if all files are pdfs'')
         \<and> (\<forall>x\<in>set attachments.
               build_attachments P attachments True \<noteq>
                 Inl (MailCertificadoException 0 (''Cannot guess mime type for '' @ name x)))
         \<and> build_attachments P attachments False =
             Inl (MailCertificadoException 0
                    (''Cannot guess mime type for '' @ name (hd attachments)))"
proof -
  from assms(1) have ne: "attachments \<noteq> []" and l: "1 < length attachments" by auto
  have t: "set (map (\<lambda>x. guess_type P (name x)) attachments) = {None}"
    by (rule types_all_unknown [OF ne assms(2)])
  then have "set (map (\<lambda>x. guess_type P (name x)) attachments) \<noteq> {Some ''application/pdf''}"
    by simp
  from build_merge_not_pdf [OF l this]
  have m: "build_attachments P attachments True =
             Inl (MailCertificadoException 0 ''Merge only allowed if all files are pdfs'')" .
  from t m build_unmerged_first_unknown [OF ne assms(2)] show ?thesis by simp
qed

theorem merge_check_before_inference_witness:
  "2 \<le> length [\<lparr>name = ''a.zzz'', data = ''hello''\<rparr>, \<lparr>name = ''noext'', data = ''hello''\<rparr>]
   \<and> list_all (\<lambda>x. guess_type sample_primitives (name x) = None)
         [\<lparr>name = ''a.zzz'', data = ''hello''\<rparr>, \<lparr>name = ''noext'', data = ''hello''\<rparr>]
   \<and> build_attachments sample_primitives
       [\<lparr>name = ''a.zzz'', data = ''hello''\<rparr>, \<lparr>name = ''noext'', data = ''hello''\<rparr>] True
     = Inl (MailCertificadoException 0 ''Merge only allowed if all files are pdfs'')
   \<and> build_attachments sample_primitives
       [\<lparr>name = ''a.zzz'', data = ''hello''\<rparr>, \<lparr>name = ''noext'', data = ''hello''\<rparr>] False
     = Inl (MailCertificadoException 0 ''Cannot guess mime type for a.zzz'')"
proof -
  let ?xs = "[\<lparr>name = ''a.zzz'', data = ''hello''\<rparr>, \<lparr>name = ''noext'', data = ''hello''\<rparr>]"
  have l: "2 \<le> length ?xs" by simp
  have g: "\<forall>x\<in>set ?xs. guess_type sample_primitives (name x) = None"
    by (simp add: sample_simps sample_guess_type_def)
  from merge_check_before_inference [OF l g]
  have "build_attachments sample_primitives ?xs True
     = Inl (MailCertificadoException 0 ''Merge only allowed if all files are pdfs'')"
   and "build_attachments sample_primitives ?xs False
     = Inl (MailCertificadoException 0 ''Cannot guess mime type for a.zzz'')"
    by simp_all
  with l g show ?thesis by (simp only: list_all_iff simp_thms)
qed

section \<open>Properties of send_agreement\<close>

lemma accept_check_None: "accept_check (Some 1) None = Inl TypeError"
  by (simp add: accept_check_def valid_mobile_def)

lemma mobile_message:
  "exception (''Mobile phone '' @ p @ '' does not seem to be a valid number'') =
     MailCertificadoException 0 (''Mobile phone '' @ p @ '' does not seem to be a valid number'')"
  by (simp add: exception_def)

text \<open>
  A phone number that is given and does not pass \<open>valid_mobile\<close> is refused with the
  library's exception before anything remote happens.
\<close>

lemma send_agreement_invalid_phone:
  assumes "valid_mobile (Some p) = Inr False"
  shows "send_agreement P G to subject body attachments (Some 1) (Some p) sms_phone sms_body =
           (Inl (MailCertificadoException 0
                   (''Mobile phone '' @ p @ '' does not seem to be a valid number'')), [])"
proof -
  have "accept_check (Some 1) (Some p) =
          Inl (exception (''Mobile phone '' @ p @ '' does not seem to be a valid number''))"
    using assms by (simp add: accept_check_def pystr_def)
  then show ?thesis
    unfolding send_agreement_def mobile_message by simp
qed

text \<open>A valid phone number passes the check of lines 214-226.\<close>

lemma accept_check_valid:
  "valid_mobile (Some p) = Inr True \<Longrightarrow> accept_check (Some 1) (Some p) = Inr ()"
  by (simp add: accept_check_def)

text \<open>
  C5, at the input the claim fails on. With \<open>accept_method = 1\<close> and no \<open>accept_phone\<close>,
  line 221 calls \<open>valid_mobile(None)\<close>, whose slice raises \<open>TypeError\<close>: the call ends
  before any remote interaction, but with \<open>TypeError\<close>, which is not the library's
  exception; the message prepared in lines 218-219 is never raised.
\<close>

theorem send_agreement_without_phone:
  "send_agreement P G to subject body attachments (Some 1) None sms_phone sms_body =
     (Inl TypeError, [])
   \<and> \<not> is_ValidationError TypeError"
  by (simp add: send_agreement_def accept_check_None)

theorem send_agreement_without_phone_witness:
  "send_agreement sample_primitives sample_gateway ''to@example.org'' ''subject'' ''body''
     [\<lparr>name = ''a.pdf'', data = ''%PDF-a''\<rparr>] (Some 1) None None None =
     (Inl TypeError, [])"
  using send_agreement_without_phone
    [of sample_primitives sample_gateway "''to@example.org''" "''subject''" "''body''"
        "[\<lparr>name = ''a.pdf'', data = ''%PDF-a''\<rparr>]" None None]
  by simp

section \<open>Properties of build_attachments on the store\<close>

lemma lookup_Some: "lookup h a = Some obj \<longleftrightarrow> a < length h \<and> h ! a = obj"
  by (auto simp: lookup_def)

lemma lookup_append: "a < length h \<Longrightarrow> lookup (h @ zs) a = lookup h a"
  by (simp add: lookup_def nth_append)

lemma building_start: "building h (length h) (h @ [List []])"
  by (simp add: building_def)

lemma building_append:
  assumes "building h0 build h"
  shows "building h0 build (h @ zs)"
proof -
  from assms obtain ds where
    t: "take (length h0) h = h0" and b: "length h0 \<le> build" "build < length h" and
    l: "h ! build = List ds" and
    d: "\<forall>d\<in>set ds. length h0 \<le> d \<and> d < length h \<and> (\<exists>items. h ! d = Dict items)"
    unfolding building_def by blast
  from t have le: "length h0 \<le> length h"
    by (metis length_take min.cobounded1)
  have "take (length h0) (h @ zs) = h0" using t le by simp
  moreover have "(h @ zs) ! build = List ds" using b l by (simp add: nth_append)
  moreover have "\<forall>d\<in>set ds. length h0 \<le> d \<and> d < length (h @ zs)
      \<and> (\<exists>items. (h @ zs) ! d = Dict items)"
    using d by (auto simp: nth_append)
  ultimately show ?thesis
    unfolding building_def using b by auto
qed

lemma building_step:
  assumes "building h0 build h"
  shows "building h0 build (list_append (h @ [Dict items]) build (length h))"
proof -
  from assms obtain ds where
    t: "take (length h0) h = h0" and b: "length h0 \<le> build" "build < length h" and
    l: "h ! build = List ds" and
    d: "\<forall>d\<in>set ds. length h0 \<le> d \<and> d < length h \<and> (\<exists>items. h ! d = Dict items)"
    unfolding building_def by blast
  from t have le: "length h0 \<le> length h"
    by (metis length_take min.cobounded1)
  let ?h1 = "h @ [Dict items]"
  let ?h2 = "?h1[build := List (ds @ [length h])]"
  have la: "list_append ?h1 build (length h) = ?h2"
    using b l by (simp add: list_append_def lookup_def nth_append)
  have "take (length h0) ?h2 = h0"
    using t le b by simp
  moreover have "?h2 ! build = List (ds @ [length h])"
    using b by simp
  moreover have "\<forall>d\<in>set (ds @ [length h]). length h0 \<le> d \<and> d < length ?h2
      \<and> (\<exists>items. ?h2 ! d = Dict items)"
  proof
    fix x
    assume "x \<in> set (ds @ [length h])"
    then consider "x \<in> set ds" | "x = length h" by auto
    then show "length h0 \<le> x \<and> x < length ?h2 \<and> (\<exists>items. ?h2 ! x = Dict items)"
    proof cases
      case 1
      with d have x: "length h0 \<le> x" "x < length h" and "\<exists>i. h ! x = Dict i" by auto
      then obtain i where i: "h ! x = Dict i" by blast
      with l have "x \<noteq> build" by auto
      with x i show ?thesis by (simp add: nth_append)
    next
      case 2
      with b le show ?thesis by simp
    qed
  qed
  ultimately show ?thesis
    unfolding building_def la using b by auto
qed

lemma build_loop_h_building:
  assumes "building h0 build h" and "build_loop_h P h build xs = (res, h')"
  shows "building h0 build h'"
  using assms
proof (induction xs arbitrary: h)
  case Nil
  then show ?case by simp
next
  case (Cons x xs)
  show ?case
  proof (cases "\<exists>an t ad. getitem h x ''name'' = Inr (Str an) \<and> guess_type P an = Some t
      \<and> getitem h x ''data'' = Inr (Str ad)")
    case True
    then obtain an t ad where
      g: "getitem h x ''name'' = Inr (Str an)" "guess_type P an = Some t"
         "getitem h x ''data'' = Inr (Str ad)"
      by blast
    let ?items = "[(''name'', Str an), (''type'', Str t),
                   (''size'', Num (estimate_size ad)), (''data'', Str ad)]"
    from g Cons.prems(2)
    have "build_loop_h P (list_append (h @ [Dict ?items]) build (length h)) build xs = (res, h')"
      by (simp add: alloc_def)
    with building_step [OF Cons.prems(1)] Cons.IH show ?thesis by blast
  next
    case False
    with Cons.prems(2) have "h' = h"
      by (auto simp: alloc_def split: sum.splits pyval.splits option.splits)
    with Cons.prems(1) show ?thesis by simp
  qed
qed

lemma merge_branch_h_extends:
  assumes "merge_branch_h P h xs = (res, h')"
  shows "\<exists>zs. h' = h @ zs"
  using assms unfolding merge_branch_def merge_branch_h_def alloc_def
  by (auto split: sum.splits if_splits option.splits)

lemma build_attachments_h_building:
  assumes "build_attachments_h P h attachments merge = (res, h')"
  shows "building h (length h) h' \<and> (\<forall>build. res = Inr build \<longrightarrow> build = length h)"
proof -
  let ?h1 = "h @ [List []]"
  have start: "building h (length h) ?h1" by (rule building_start)
  show ?thesis
  proof (cases "lookup ?h1 attachments")
    case None
    with assms start show ?thesis
      by (auto simp: build_attachments_h_def alloc_def)
  next
    case (Some obj)
    show ?thesis
    proof (cases obj)
      case (Dict items)
      with Some assms start show ?thesis
        by (auto simp: build_attachments_h_def alloc_def)
    next
      case (List xs)
      obtain r2 h2 where m: "(if merge \<and> length xs > 1 then merge_branch_h P ?h1 xs
                      else (Inr attachments, ?h1)) = (r2, h2)"
        by (cases "(if merge \<and> length xs > 1 then merge_branch_h P ?h1 xs
                      else (Inr attachments, ?h1))") auto
      then have "\<exists>zs. h2 = ?h1 @ zs"
        using merge_branch_h_extends [of P ?h1 xs r2 h2]
        by (auto split: if_splits)
      with building_append [OF start] have b2: "building h (length h) h2"
        by auto
      from assms Some List m have r: "(case (r2, h2) of
                  (Inl e, h2) \<Rightarrow> (Inl e, h2)
                | (Inr attachments', h2) \<Rightarrow>
                    (case lookup h2 attachments' of
                       Some (List xs') \<Rightarrow>
                         (case build_loop_h P h2 (length h) xs' of
                            (Inl e, h3) \<Rightarrow> (Inl e, h3)
                          | (Inr u, h3) \<Rightarrow> (Inr (length h), h3))
                     | Some (Dict items) \<Rightarrow> (Inl TypeError, h2)
                     | None \<Rightarrow> (Inl TypeError, h2))) = (res, h')"
        by (simp add: build_attachments_h_def alloc_def)
      show ?thesis
      proof (cases r2)
        case (Inl e)
        with r b2 show ?thesis by auto
      next
        case (Inr attachments')
        show ?thesis
        proof (cases "\<exists>xs'. lookup h2 attachments' = Some (List xs')")
          case True
          then obtain xs' where x: "lookup h2 attachments' = Some (List xs')" by blast
          obtain r3 h3 where l: "build_loop_h P h2 (length h) xs' = (r3, h3)"
            by (cases "build_loop_h P h2 (length h) xs'") auto
          from build_loop_h_building [OF b2 l] have "building h (length h) h3" .
          with r Inr x l show ?thesis
            by (cases r3) auto
        next
          case False
          with r Inr b2 show ?thesis
            by (auto split: option.splits pyobj.splits)
        qed
      qed
    qed
  qed
qed

lemma those_map_length: "those_map f xs = Some ys \<Longrightarrow> length ys = length xs"
  by (induction xs arbitrary: ys) (auto split: option.splits)

lemma those_map_cong_Some:
  assumes "those_map f xs = Some ys"
    and "\<And>x y. x \<in> set xs \<Longrightarrow> f x = Some y \<Longrightarrow> g x = Some y"
  shows "those_map g xs = Some ys"
  using assms
proof (induction xs arbitrary: ys)
  case Nil
  then show ?case by simp
next
  case (Cons x xs)
  from Cons.prems(1) obtain y ys' where
    y: "f x = Some y" "those_map f xs = Some ys'" "ys = y # ys'"
    by (auto split: option.splits)
  from Cons.IH [OF y(2)] Cons.prems(2) have "those_map g xs = Some ys'" by simp
  moreover from Cons.prems(2) [of x y] y(1) have "g x = Some y" by simp
  ultimately show ?case using y(3) by simp
qed

lemma those_map_snoc:
  "those_map f xs = Some ys \<Longrightarrow> f x = Some y \<Longrightarrow> those_map f (xs @ [x]) = Some (ys @ [y])"
  by (induction xs arbitrary: ys) (auto split: option.splits)

lemma attachment_at_Some:
  assumes "attachment_at h x = Some a"
  shows "getitem h x ''name'' = Inr (Str (name a))"
    and "getitem h x ''data'' = Inr (Str (data a))"
    and "x < length h" and "\<exists>items. h ! x = Dict items"
  using assms unfolding attachment_at_def getitem_def lookup_def
  by (auto split: sum.splits pyval.splits option.splits pyobj.splits if_splits)

lemma attach_dict_at_Some:
  assumes "attach_dict_at h x = Some r"
  shows "x < length h" and "\<exists>items. h ! x = Dict items"
  using assms unfolding attach_dict_at_def lookup_def
  by (auto split: option.splits pyobj.splits if_splits)

text \<open>What a dict reads as does not change when later objects are added or a list is updated.\<close>

lemma getitem_append: "x < length h \<Longrightarrow> getitem (h @ zs) x key = getitem h x key"
  by (simp add: getitem_def lookup_append)

lemma attachment_at_append:
  assumes "attachment_at h x = Some a"
  shows "attachment_at (h @ zs) x = Some a"
  using assms attachment_at_Some(3) [OF assms]
  by (simp add: attachment_at_def getitem_append)

lemma attach_dict_at_append:
  assumes "attach_dict_at h x = Some r"
  shows "attach_dict_at (h @ zs) x = Some r"
  using assms attach_dict_at_Some(1) [OF assms]
  by (simp add: attach_dict_at_def lookup_append)

lemma lookup_update_other:
  "x \<noteq> b \<Longrightarrow> lookup (h[b := obj]) x = lookup h x"
  by (simp add: lookup_def)

lemma attachment_at_update:
  assumes "attachment_at h x = Some a" and "h ! b = List ds"
  shows "attachment_at (h[b := obj]) x = Some a"
proof -
  from attachment_at_Some(4) [OF assms(1)] assms(2) have "x \<noteq> b" by auto
  with assms(1) show ?thesis
    by (simp add: attachment_at_def getitem_def lookup_update_other)
qed

lemma attach_dict_at_update:
  assumes "attach_dict_at h x = Some r" and "h ! b = List ds"
  shows "attach_dict_at (h[b := obj]) x = Some r"
proof -
  from attach_dict_at_Some(2) [OF assms(1)] assms(2) have "x \<noteq> b" by auto
  with assms(1) show ?thesis
    by (simp add: attach_dict_at_def lookup_update_other)
qed

lemma guess_types_h_refines:
  "those_map (attachment_at h) xs = Some atts \<Longrightarrow>
   guess_types_h P h xs = Inr (map (\<lambda>a. guess_type P (name a)) atts)"
proof (induction xs arbitrary: atts)
  case Nil
  then show ?case by simp
next
  case (Cons x xs)
  from Cons.prems obtain a atts' where
    a: "attachment_at h x = Some a" "those_map (attachment_at h) xs = Some atts'"
       "atts = a # atts'"
    by (auto split: option.splits)
  from Cons.IH [OF a(2)] attachment_at_Some(1) [OF a(1)] a(3) show ?case by simp
qed

lemma merge_loop_h_refines:
  "those_map (attachment_at h) xs = Some atts \<Longrightarrow>
   merge_loop_h P h merger xs = merge_loop P merger atts"
proof (induction xs arbitrary: atts merger)
  case Nil
  then show ?case by simp
next
  case (Cons x xs)
  from Cons.prems obtain a atts' where
    a: "attachment_at h x = Some a" "those_map (attachment_at h) xs = Some atts'"
       "atts = a # atts'"
    by (auto split: option.splits)
  from Cons.IH [OF a(2)] attachment_at_Some(2) [OF a(1)] a(3) show ?case
    by (simp split: option.splits)
qed

lemma those_map_hd:
  "those_map f xs = Some ys \<Longrightarrow> xs \<noteq> [] \<Longrightarrow> f (hd xs) = Some (hd ys) \<and> ys \<noteq> []"
  by (cases xs) (auto split: option.splits)

lemma merge_branch_h_refines:
  assumes "those_map (attachment_at h) xs = Some atts" and "xs \<noteq> []"
  shows "merge_branch_h P h xs =
           (case merge_branch P atts of
              Inl e \<Rightarrow> (Inl e, h)
            | Inr atts' \<Rightarrow>
                (Inr (Suc (length h)),
                 h @ [Dict [(''name'', Str (name (hd atts'))), (''data'', Str (data (hd atts')))],
                      List [length h]]))"
proof -
  from those_map_hd [OF assms] have "attachment_at h (hd xs) = Some (hd atts)" by simp
  from attachment_at_Some(1) [OF this]
  have n: "getitem h (hd xs) ''name'' = Inr (Str (name (hd atts)))" .
  show ?thesis
    unfolding merge_branch_h_def merge_branch_def Let_def
      guess_types_h_refines [OF assms(1)] merge_loop_h_refines [OF assms(1)] n
    by (simp add: alloc_def split: sum.splits option.splits)
qed

lemma attach_dict_at_Dict:
  "lookup h x = Some (Dict [(''name'', Str n), (''type'', Str t), (''size'', Num z), (''data'', Str d)])
   \<Longrightarrow> attach_dict_at h x =
         Some \<lparr>attach_name = n, attach_type = t, attach_size = z, attach_data = d\<rparr>"
  unfolding attach_dict_at_def by simp

lemma build_loop_h_refines:
  assumes "those_map (attachment_at h) xs = Some atts"
    and "build < length h" and "h ! build = List ds"
    and "those_map (attach_dict_at h) ds = Some acc"
  shows "case build_loop P atts acc of
           Inl e \<Rightarrow> fst (build_loop_h P h build xs) = Inl e
         | Inr built \<Rightarrow>
             fst (build_loop_h P h build xs) = Inr ()
             \<and> build_at (snd (build_loop_h P h build xs)) build = Some built"
  using assms
proof (induction xs arbitrary: h atts ds acc)
  case Nil
  then show ?case by (simp add: build_at_def lookup_def)
next
  case (Cons x xs)
  from Cons.prems(1) obtain a atts' where
    a: "attachment_at h x = Some a" "those_map (attachment_at h) xs = Some atts'"
       "atts = a # atts'"
    by (auto split: option.splits)
  note g = attachment_at_Some(1,2) [OF a(1)]
  show ?case
  proof (cases "guess_type P (name a)")
    case None
    with g a(3) show ?thesis by simp
  next
    case (Some t)
    let ?items = "[(''name'', Str (name a)), (''type'', Str t),
                   (''size'', Num (estimate_size (data a))), (''data'', Str (data a))]"
    let ?r = "\<lparr>attach_name = name a, attach_type = t,
               attach_size = estimate_size (data a), attach_data = data a\<rparr>"
    let ?h1 = "h @ [Dict ?items]"
    let ?h2 = "?h1[build := List (ds @ [length h])]"
    have la: "list_append ?h1 build (length h) = ?h2"
      using Cons.prems(2,3) by (simp add: list_append_def lookup_def nth_append)
    have b1: "?h1 ! build = List ds"
      using Cons.prems(2,3) by (simp add: nth_append)
    have step: "build_loop_h P h build (x # xs) = build_loop_h P ?h2 build xs"
      using g Some la by (simp add: alloc_def)
    have pure: "build_loop P atts acc = build_loop P atts' (acc @ [?r])"
      using a(3) Some by simp
    have 1: "those_map (attachment_at ?h2) xs = Some atts'"
    proof (rule those_map_cong_Some [OF a(2)])
      fix y b
      assume "attachment_at h y = Some b"
      then have "attachment_at ?h1 y = Some b" by (rule attachment_at_append)
      then show "attachment_at ?h2 y = Some b" using b1 by (rule attachment_at_update)
    qed
    have 2: "build < length ?h2" using Cons.prems(2) by simp
    have 3: "?h2 ! build = List (ds @ [length h])" using Cons.prems(2) by simp
    have old: "those_map (attach_dict_at ?h2) ds = Some acc"
    proof (rule those_map_cong_Some [OF Cons.prems(4)])
      fix y b
      assume "attach_dict_at h y = Some b"
      then have "attach_dict_at ?h1 y = Some b" by (rule attach_dict_at_append)
      then show "attach_dict_at ?h2 y = Some b" using b1 by (rule attach_dict_at_update)
    qed
    have "lookup ?h2 (length h) = Some (Dict ?items)"
      using Cons.prems(2) by (simp add: lookup_def)
    then have new: "attach_dict_at ?h2 (length h) = Some ?r"
      by (rule attach_dict_at_Dict)
    have 4: "those_map (attach_dict_at ?h2) (ds @ [length h]) = Some (acc @ [?r])"
      using old new by (rule those_map_snoc)
    from Cons.IH [OF 1 2 3 4] show ?thesis
      unfolding step pure .
  qed
qed

lemma attachments_at_Some:
  "attachments_at h l = Some atts \<longleftrightarrow>
     (\<exists>xs. lookup h l = Some (List xs) \<and> those_map (attachment_at h) xs = Some atts)"
  by (auto simp: attachments_at_def split: option.splits pyobj.splits)

text \<open>
  The store version computes what \<open>build_attachments\<close> computes: on an argument that
  reads as the attachments \<open>atts\<close>, it raises the same exception or returns the address
  of a list that reads as the records built from \<open>atts\<close>.
\<close>

lemma build_attachments_h_refines:
  assumes "attachments_at h l = Some atts"
  shows "case build_attachments P atts merge of
           Inl e \<Rightarrow> fst (build_attachments_h P h l merge) = Inl e
         | Inr built \<Rightarrow>
             fst (build_attachments_h P h l merge) = Inr (length h)
             \<and> build_at (snd (build_attachments_h P h l merge)) (length h) = Some built"
proof -
  from assms obtain xs where
    l: "lookup h l = Some (List xs)" and x: "those_map (attachment_at h) xs = Some atts"
    unfolding attachments_at_Some by blast
  let ?h1 = "h @ [List []]"
  from l have ll: "l < length h" by (simp add: lookup_Some)
  then have l1: "lookup ?h1 l = Some (List xs)"
    using l by (simp add: lookup_append)
  have x1: "those_map (attachment_at ?h1) xs = Some atts"
    by (rule those_map_cong_Some [OF x]) (rule attachment_at_append)
  have len: "length xs = length atts"
    using those_map_length [OF x] by simp
  have b1: "length h < length ?h1" "?h1 ! length h = List []"
    "those_map (attach_dict_at ?h1) [] = Some []"
    by simp_all
  show ?thesis
  proof (cases "merge \<and> 1 < length atts")
    case False
    then have pure: "build_attachments P atts merge = build_loop P atts []"
      by (auto simp: build_attachments_def merge_step_def)
    from False len l1
    have store: "build_attachments_h P h l merge =
       (case build_loop_h P ?h1 (length h) xs of
          (Inl e, h3) \<Rightarrow> (Inl e, h3)
        | (Inr u, h3) \<Rightarrow> (Inr (length h), h3))"
      by (auto simp: build_attachments_h_def alloc_def)
    from build_loop_h_refines [OF x1 b1, of P] show ?thesis
      unfolding pure store
      by (cases "build_loop_h P ?h1 (length h) xs")
         (auto split: sum.splits)
  next
    case True
    with len have ne: "xs \<noteq> []" by auto
    note mb = merge_branch_h_refines [OF x1 ne, of P]
    show ?thesis
    proof (cases "merge_branch P atts")
      case (Inl e)
      with True have "build_attachments P atts merge = Inl e"
        by (simp add: build_attachments_def merge_step_def)
      moreover from True len l1 mb Inl
      have "fst (build_attachments_h P h l merge) = Inl e"
        by (simp add: build_attachments_h_def alloc_def)
      ultimately show ?thesis by simp
    next
      case (Inr atts')
      from merge_branch_Inr [OF Inr] obtain d where
        d: "atts' = [\<lparr>name = name (hd atts), data = d\<rparr>]" by blast
      let ?m = "\<lparr>name = name (hd atts), data = d\<rparr>"
      let ?h2 = "?h1 @ [Dict [(''name'', Str (name ?m)), (''data'', Str (data ?m))],
                        List [length ?h1]]"
      from True Inr d have pure: "build_attachments P atts merge = build_loop P [?m] []"
        by (simp add: build_attachments_def merge_step_def)
      from mb Inr d have m2: "merge_branch_h P ?h1 xs = (Inr (Suc (length ?h1)), ?h2)"
        by simp
      have l2: "lookup ?h2 (Suc (length ?h1)) = Some (List [length ?h1])"
        by (simp add: lookup_def nth_append)
      from True len l1 m2 l2
      have store: "build_attachments_h P h l merge =
         (case build_loop_h P ?h2 (length h) [length ?h1] of
            (Inl e, h3) \<Rightarrow> (Inl e, h3)
          | (Inr u, h3) \<Rightarrow> (Inr (length h), h3))"
        by (simp add: build_attachments_h_def alloc_def)
      have x2: "those_map (attachment_at ?h2) [length ?h1] = Some [?m]"
        by (simp add: attachment_at_def getitem_def lookup_def nth_append)
      have b2: "length h < length ?h2" "?h2 ! length h = List []"
        "those_map (attach_dict_at ?h2) [] = Some []"
        by (simp_all add: nth_append)
      from build_loop_h_refines [OF x2 b2, of P] show ?thesis
        unfolding pure store
        by (cases "build_loop_h P ?h2 (length h) [length ?h1]")
           (auto split: sum.splits)
    qed
  qed
qed

lemma unchanged_lookup:
  assumes "take (length h) h' = h" and "a < length h"
  shows "lookup h' a = lookup h a"
proof -
  from assms(1) have "length h \<le> length h'"
    by (metis length_take min.cobounded1)
  moreover from assms have "h' ! a = h ! a"
    by (metis nth_take)
  ultimately show ?thesis using assms(2) by (simp add: lookup_def)
qed

lemma unchanged_attachment_at:
  assumes "take (length h) h' = h" and "attachment_at h x = Some a"
  shows "attachment_at h' x = Some a"
proof -
  from unchanged_lookup [OF assms(1) attachment_at_Some(3) [OF assms(2)]]
  have "\<And>key. getitem h' x key = getitem h x key"
    by (simp add: getitem_def)
  with assms(2) show ?thesis by (simp add: attachment_at_def)
qed

lemma unchanged_attachments_at:
  assumes "take (length h) h' = h" and "attachments_at h l = Some atts"
  shows "attachments_at h' l = Some atts"
proof -
  from assms(2) obtain xs where
    l: "lookup h l = Some (List xs)" and x: "those_map (attachment_at h) xs = Some atts"
    unfolding attachments_at_Some by blast
  from l have "l < length h" by (simp add: lookup_Some)
  from unchanged_lookup [OF assms(1) this] l have "lookup h' l = Some (List xs)" by simp
  moreover have "those_map (attachment_at h') xs = Some atts"
    by (rule those_map_cong_Some [OF x]) (rule unchanged_attachment_at [OF assms(1)])
  ultimately show ?thesis
    unfolding attachments_at_Some by blast
qed

lemma building_fresh:
  assumes "building h build h'"
  shows "length h \<le> build
         \<and> (\<exists>ds. lookup h' build = Some (List ds)
               \<and> (\<forall>d\<in>set ds. length h \<le> d \<and> (\<exists>items. lookup h' d = Some (Dict items))))"
  using assms unfolding building_def lookup_def by auto

text \<open>
  C9. Whatever the call does, returning or raising, every object the store held before
  it is the same object after it: in particular the argument list and each attachment
  dict read as they did. When the call returns, the list returned and every dict in it
  are objects the store did not hold before the call.
\<close>

theorem build_attachments_h_frame:
  assumes "build_attachments_h P h attachments merge = (res, h')"
  shows "(\<forall>a<length h. lookup h' a = lookup h a)
         \<and> (\<forall>atts. attachments_at h attachments = Some atts \<longrightarrow>
                     attachments_at h' attachments = Some atts)
         \<and> (\<forall>build. res = Inr build \<longrightarrow>
               length h \<le> build
               \<and> (\<exists>ds. lookup h' build = Some (List ds)
                     \<and> (\<forall>d\<in>set ds. length h \<le> d
                           \<and> (\<exists>items. lookup h' d = Some (Dict items)))))"
proof -
  from build_attachments_h_building [OF assms] have
    b: "building h (length h) h'" and r: "\<forall>build. res = Inr build \<longrightarrow> build = length h"
    by blast+
  from b have t: "take (length h) h' = h"
    by (simp add: building_def)
  have 1: "\<forall>a<length h. lookup h' a = lookup h a"
    using unchanged_lookup [OF t] by blast
  have 2: "\<forall>atts. attachments_at h attachments = Some atts \<longrightarrow>
                     attachments_at h' attachments = Some atts"
    using unchanged_attachments_at [OF t] by blast
  from building_fresh [OF b] r 1 2 show ?thesis by blast
qed

lemma sample_build_h:
  "build_attachments_h sample_primitives sample_heap 2 True =
     (Inr 3,
      [Dict [(''name'', Str ''a.pdf''), (''data'', Str ''%PDF-a'')],
       Dict [(''name'', Str ''b.pdf''), (''data'', Str ''%PDF-bb'')],
       List [0, 1], List [6],
       Dict [(''name'', Str ''a.pdf''), (''data'', Str ''%PDF-a%PDF-bb'')],
       List [4],
       Dict [(''name'', Str ''a.pdf''), (''type'', Str ''application/pdf''),
             (''size'', Num 9), (''data'', Str ''%PDF-a%PDF-bb'')]])"
  by (simp add: build_attachments_h_def merge_branch_h_def alloc_def lookup_def getitem_def
      list_append_def sample_heap_def sample_simps sample_guess_type_def sample_b64decode_def
      sample_append_def estimate_size_def)

lemma sample_attachments_at:
  "attachments_at sample_heap 2 =
     Some [\<lparr>name = ''a.pdf'', data = ''%PDF-a''\<rparr>, \<lparr>name = ''b.pdf'', data = ''%PDF-bb''\<rparr>]"
  by (simp add: attachments_at_def attachment_at_def lookup_def getitem_def sample_heap_def)

theorem build_attachments_h_frame_witness:
  "build_attachments_h sample_primitives sample_heap 2 True =
     (Inr 3,
      [Dict [(''name'', Str ''a.pdf''), (''data'', Str ''%PDF-a'')],
       Dict [(''name'', Str ''b.pdf''), (''data'', Str ''%PDF-bb'')],
       List [0, 1], List [6],
       Dict [(''name'', Str ''a.pdf''), (''data'', Str ''%PDF-a%PDF-bb'')],
       List [4],
       Dict [(''name'', Str ''a.pdf''), (''type'', Str ''application/pdf''),
             (''size'', Num 9), (''data'', Str ''%PDF-a%PDF-bb'')]])
   \<and> attachments_at sample_heap 2 =
       Some [\<lparr>name = ''a.pdf'', data = ''%PDF-a''\<rparr>, \<lparr>name = ''b.pdf'', data = ''%PDF-bb''\<rparr>]
   \<and> attachments_at
       [Dict [(''name'', Str ''a.pdf''), (''data'', Str ''%PDF-a'')],
        Dict [(''name'', Str ''b.pdf''), (''data'', Str ''%PDF-bb'')],
        List [0, 1], List [6],
        Dict [(''name'', Str ''a.pdf''), (''data'', Str ''%PDF-a%PDF-bb'')],
        List [4],
        Dict [(''name'', Str ''a.pdf''), (''type'', Str ''application/pdf''),
              (''size'', Num 9), (''data'', Str ''%PDF-a%PDF-bb'')]] 2 =
       Some [\<lparr>name = ''a.pdf'', data = ''%PDF-a''\<rparr>, \<lparr>name = ''b.pdf'', data = ''%PDF-bb''\<rparr>]
   \<and> length sample_heap \<le> 3"
  using build_attachments_h_frame [OF sample_build_h] sample_build_h sample_attachments_at
  by (simp add: sample_heap_def)

end
